theory Spec2Isabelle
  imports Main "HOL-Library.Sublist"
begin

section \<open>The work queue of pkg/queue/instance.go\<close>

text \<open>
  The queue is a mutex-guarded slice of tasks, a closing flag, a channel that is closed
  when the run loop has stopped, and a \<open>sync.Once\<close> guarding that close. Every access
  to \<open>tasks\<close> and \<open>closing\<close> happens with \<open>q.cond.L\<close> held, so each critical section is
  one atomic transition of the model. \<open>cond.Wait\<close> is modelled by the transition not being
  enabled (outcome \<open>Blocks\<close>); \<open>cond.Signal\<close> changes no field.

  A \<open>Task\<close> is a Go closure \<open>func() error\<close>. The queue never inspects it, so it is a value
  of an arbitrary type \<open>'t\<close>; what calling it yields is given by the environment as a
  \<open>task_result\<close>. The type \<open>backoff.ExponentialBackOff\<close> is declared outside this file and
  is the type parameter \<open>'b\<close>. A \<open>time.Duration\<close> is an \<open>int\<close> (nanoseconds); the code
  never computes with it.
\<close>

subsection \<open>Data\<close>

record ('t, 'b) queueImpl =
  delay :: int
  retryBackoff :: "'b option"
  tasks :: "'t list"
  closing :: bool
  closed :: bool
  closeOnce :: bool
  id_label :: string

text \<open>
  \<open>closed q\<close> holds once the channel \<open>q.closed\<close> has been closed; \<open>closeOnce q\<close> holds once
  \<open>q.closeOnce.Do\<close> has run its function. \<open>id_label\<close> is the field \<open>id\<close>.
\<close>

datatype panic = IndexOutOfRange | NilFuncCall | CloseOfClosedChannel | TaskPanic

datatype 'a outcome = Blocks | Panics panic | Returns 'a

datatype task_result = Succeeds | Fails string | Crashes

datatype log_entry =
    Debugf_started string
  | Debugf_closed string
  | Infof_failed string int

record 't timer =
  armed_at :: int
  wait :: int
  payload :: 't

datatype 't pc = Idle | Looping | Executing 't | Exiting "panic option" | Stopped | Panicked panic

datatype wstate = NoWatcher | Waiting | Finished

text \<open>
  The system around one queue: the goroutine that runs \<open>Run\<close> (its program counter), the
  goroutine that waits for the stop channel, the stop channel itself, the timers armed by
  \<open>time.AfterFunc\<close>, a logical clock and the log. Two history fields record what has
  happened so far: \<open>executed\<close> lists the tasks that have been called, in the order of
  the calls, and \<open>closes\<close> counts the executions of \<open>close(q.closed)\<close>.
\<close>

record ('t, 'b) system =
  queue :: "('t, 'b) queueImpl"
  pc :: "'t pc"
  watcher :: wstate
  stop :: bool
  timers :: "'t timer list"
  now :: int
  logs :: "log_entry list"
  executed :: "'t list"
  closes :: nat

subsection \<open>Construction, Push, Closed\<close>

definition NewQueueWithID :: "int \<Rightarrow> string \<Rightarrow> ('t, 'b) queueImpl" where
  "NewQueueWithID errorDelay name =
     \<lparr>delay = errorDelay, retryBackoff = None, tasks = [], closing = False,
      closed = False, closeOnce = False, id_label = name\<rparr>"

text \<open>\<open>NewQueue\<close> draws the name from \<open>rand.String(10)\<close>; the drawn string is the argument \<open>rnd\<close>.\<close>

definition NewQueue :: "int \<Rightarrow> string \<Rightarrow> ('t, 'b) queueImpl" where
  "NewQueue errorDelay rnd = NewQueueWithID errorDelay rnd"

definition Push :: "'t \<Rightarrow> ('t, 'b) queueImpl \<Rightarrow> ('t, 'b) queueImpl" where
  "Push item q = (if \<not> closing q then q\<lparr>tasks := tasks q @ [item]\<rparr> else q)"

definition Closed :: "('t, 'b) queueImpl \<Rightarrow> bool" where
  "Closed q = closed q"

subsection \<open>The blocking dequeue\<close>

text \<open>
  \<open>get\<close>, lines 84 to 101. The wait loop re-checks its condition with the lock held after
  every wake-up, and the lock is held from the last check to the return, so the whole
  call acts on the state in which the condition is found false. \<open>get_after_wait\<close> is the
  code after the loop; reading \<open>q.tasks[0]\<close> of an empty slice panics. The returned task
  is \<open>None\<close> for Go's \<open>nil\<close>. The write \<open>q.tasks[0] = nil\<close> clears a slot of the backing array
  that \<open>q.tasks[1:]\<close> no longer covers.
\<close>

definition get_waits :: "('t, 'b) queueImpl \<Rightarrow> bool" where
  "get_waits q = (\<not> closing q \<and> length (tasks q) = 0)"

definition get_after_wait ::
  "('t, 'b) queueImpl \<Rightarrow> (('t option \<times> bool) \<times> ('t, 'b) queueImpl) outcome" where
  "get_after_wait q =
     (if closing q then Returns ((None, True), q)
      else (case tasks q of
              [] \<Rightarrow> Panics IndexOutOfRange
            | task # rest \<Rightarrow> Returns ((Some task, False), q\<lparr>tasks := rest\<rparr>)))"

definition get ::
  "('t, 'b) queueImpl \<Rightarrow> (('t option \<times> bool) \<times> ('t, 'b) queueImpl) outcome" where
  "get q = (if get_waits q then Blocks else get_after_wait q)"

text \<open>
  The dequeue written inline in the \<open>HEAD\<close> side of \<open>Run\<close>, lines 139 to 152: the same wait
  loop, then a return from \<open>Run\<close> (result \<open>None\<close>) when the slice is empty, else the head.
\<close>

definition Run_HEAD_dequeue ::
  "('t, 'b) queueImpl \<Rightarrow> ('t option \<times> ('t, 'b) queueImpl) outcome" where
  "Run_HEAD_dequeue q =
     (if \<not> closing q \<and> length (tasks q) = 0 then Blocks
      else (case tasks q of
              [] \<Rightarrow> Returns (None, q)
            | task # rest \<Rightarrow> Returns (Some task, q\<lparr>tasks := rest\<rparr>)))"

subsection \<open>Running a task and scheduling the retry\<close>

text \<open>
  \<open>time.AfterFunc d f\<close> arms a timer that calls \<open>f\<close> in a goroutine of its own once \<open>d\<close> has
  elapsed; the function here is always \<open>q.Push(task)\<close>, so a timer holds the task.
\<close>

definition AfterFunc :: "int \<Rightarrow> 't \<Rightarrow> ('t, 'b) system \<Rightarrow> ('t, 'b) system" where
  "AfterFunc d task s = s\<lparr>timers := timers s @ [\<lparr>armed_at = now s, wait = d, payload = task\<rparr>]\<rparr>"

definition timer_due :: "int \<Rightarrow> 't timer \<Rightarrow> bool" where
  "timer_due t tm = (armed_at tm + wait tm \<le> t)"

text \<open>
  Lines 111 to 117 of \<open>processNextItem\<close>, and the same statements at lines 154 to 160 of
  \<open>Run\<close>: the task has been called and \<open>r\<close> is what the call did.
\<close>

definition handle_result ::
  "'t \<Rightarrow> task_result \<Rightarrow> ('t, 'b) system \<Rightarrow> ('t, 'b) system outcome" where
  "handle_result task r s =
     (case r of
        Succeeds \<Rightarrow> Returns s
      | Fails err \<Rightarrow>
          Returns (AfterFunc (delay (queue s)) task
                     (s\<lparr>logs := logs s @ [Infof_failed err (delay (queue s))]\<rparr>))
      | Crashes \<Rightarrow> Panics TaskPanic)"

definition note_executed :: "'t \<Rightarrow> ('t, 'b) system \<Rightarrow> ('t, 'b) system" where
  "note_executed task s = s\<lparr>executed := executed s @ [task]\<rparr>"

definition processNextItem ::
  "('t \<Rightarrow> task_result) \<Rightarrow> ('t, 'b) system \<Rightarrow> (bool \<times> ('t, 'b) system) outcome" where
  "processNextItem call s =
     (case get (queue s) of
        Blocks \<Rightarrow> Blocks
      | Panics p \<Rightarrow> Panics p
      | Returns ((task, shuttingdown), q') \<Rightarrow>
          if shuttingdown then Returns (False, s\<lparr>queue := q'\<rparr>)
          else (case task of
                  None \<Rightarrow> Panics NilFuncCall
                | Some t \<Rightarrow>
                    (case handle_result t (call t) (note_executed t (s\<lparr>queue := q'\<rparr>)) of
                       Blocks \<Rightarrow> Blocks
                     | Panics p \<Rightarrow> Panics p
                     | Returns s' \<Rightarrow> Returns (True, s'))))"

text \<open>One pass through the body of the \<open>HEAD\<close> loop, lines 138 to 160.\<close>

definition Run_HEAD_iteration ::
  "('t \<Rightarrow> task_result) \<Rightarrow> ('t, 'b) system \<Rightarrow> (bool \<times> ('t, 'b) system) outcome" where
  "Run_HEAD_iteration call s =
     (case Run_HEAD_dequeue (queue s) of
        Blocks \<Rightarrow> Blocks
      | Panics p \<Rightarrow> Panics p
      | Returns (None, q') \<Rightarrow> Returns (False, s\<lparr>queue := q'\<rparr>)
      | Returns (Some t, q') \<Rightarrow>
          (case handle_result t (call t) (note_executed t (s\<lparr>queue := q'\<rparr>)) of
             Blocks \<Rightarrow> Blocks
           | Panics p \<Rightarrow> Panics p
           | Returns s' \<Rightarrow> Returns (True, s')))"

subsection \<open>The parts of Run\<close>

text \<open>
  Closing a channel that is already closed panics. The result is the panic, if any, and
  the state the call leaves.
\<close>

definition close_chan :: "('t, 'b) system \<Rightarrow> panic option \<times> ('t, 'b) system" where
  "close_chan s =
     (if closed (queue s) then (Some CloseOfClosedChannel, s)
      else (None, s\<lparr>queue := (queue s)\<lparr>closed := True\<rparr>, closes := closes s + 1\<rparr>))"

text \<open>
  The deferred function of \<open>Run\<close>, lines 123 to 128. \<open>sync.Once\<close> marks itself done
  whether or not the function it runs panics.
\<close>

definition Run_deferred :: "('t, 'b) system \<Rightarrow> panic option \<times> ('t, 'b) system" where
  "Run_deferred s =
     (if closeOnce (queue s) then (None, s)
      else close_chan (s\<lparr>queue := (queue s)\<lparr>closeOnce := True\<rparr>,
                         logs := logs s @ [Debugf_closed (id_label (queue s))]\<rparr>))"

text \<open>The goroutine of lines 129 to 135, once \<open>stop\<close> has delivered.\<close>

definition Run_watcher :: "('t, 'b) queueImpl \<Rightarrow> ('t, 'b) queueImpl" where
  "Run_watcher q = q\<lparr>closing := True\<rparr>"

subsection \<open>Interleavings\<close>

text \<open>
  The source file holds both sides of an unresolved merge in \<open>Run\<close>: the \<open>HEAD\<close> side is
  the inline loop of lines 138 to 160, the other side is \<open>for q.processNextItem() {}\<close>.
  The transitions take the side as a parameter.
\<close>

datatype variant = HEAD | Incoming

text \<open>
  One transition per atomic action of a goroutine; \<open>step\<close> is \<open>None\<close> when the action
  cannot be taken in the state.
  \<^item> \<open>Push_ev t\<close>: some goroutine calls \<open>q.Push(t)\<close>.
  \<^item> \<open>Run_ev\<close>: the owner calls \<open>Run\<close>, once in the life of the queue: the log line, the
    deferred function is registered, the watcher starts.
  \<^item> \<open>Stop_ev\<close>: the stop channel delivers, now and from now on.
  \<^item> \<open>Watcher_ev\<close>: the watcher has received from the stop channel and runs its critical
    section.
  \<^item> \<open>Loop_ev\<close>: the critical section at the head of the loop: a task is dequeued or the
    loop ends; not enabled while the loop would wait.
  \<^item> \<open>Task_ev r\<close>: the call of the dequeued task ends with \<open>r\<close>, and the retry is scheduled
    if it failed.
  \<^item> \<open>Return_ev\<close>: \<open>Run\<close> returns or unwinds, running its deferred function.
  \<^item> \<open>Timer_ev k\<close>: the timer at position \<open>k\<close> fires, which needs its delay to have elapsed.
  \<^item> \<open>Tick_ev d\<close>: \<open>d\<close> nanoseconds pass.
\<close>

datatype 't event =
    Push_ev 't
  | Run_ev
  | Stop_ev
  | Watcher_ev
  | Loop_ev
  | Task_ev task_result
  | Return_ev
  | Timer_ev nat
  | Tick_ev nat

definition do_Run :: "('t, 'b) system \<Rightarrow> ('t, 'b) system option" where
  "do_Run s =
     (if pc s = Idle
      then Some (s\<lparr>logs := logs s @ [Debugf_started (id_label (queue s))],
                   watcher := Waiting, pc := Looping\<rparr>)
      else None)"

definition do_Watcher :: "('t, 'b) system \<Rightarrow> ('t, 'b) system option" where
  "do_Watcher s =
     (if watcher s = Waiting \<and> stop s
      then Some (s\<lparr>queue := Run_watcher (queue s), watcher := Finished\<rparr>)
      else None)"

definition do_Loop :: "variant \<Rightarrow> ('t, 'b) system \<Rightarrow> ('t, 'b) system option" where
  "do_Loop v s =
     (if pc s \<noteq> Looping then None
      else (case v of
              HEAD \<Rightarrow>
                (case Run_HEAD_dequeue (queue s) of
                   Blocks \<Rightarrow> None
                 | Panics p \<Rightarrow> Some (s\<lparr>pc := Exiting (Some p)\<rparr>)
                 | Returns (None, q') \<Rightarrow> Some (s\<lparr>queue := q', pc := Exiting None\<rparr>)
                 | Returns (Some t, q') \<Rightarrow> Some (s\<lparr>queue := q', pc := Executing t\<rparr>))
            | Incoming \<Rightarrow>
                (case get (queue s) of
                   Blocks \<Rightarrow> None
                 | Panics p \<Rightarrow> Some (s\<lparr>pc := Exiting (Some p)\<rparr>)
                 | Returns ((task, shuttingdown), q') \<Rightarrow>
                     if shuttingdown then Some (s\<lparr>queue := q', pc := Exiting None\<rparr>)
                     else (case task of
                             None \<Rightarrow> Some (s\<lparr>queue := q', pc := Exiting (Some NilFuncCall)\<rparr>)
                           | Some t \<Rightarrow> Some (s\<lparr>queue := q', pc := Executing t\<rparr>)))))"

definition do_Task :: "task_result \<Rightarrow> ('t, 'b) system \<Rightarrow> ('t, 'b) system option" where
  "do_Task r s =
     (case pc s of
        Executing t \<Rightarrow>
          (case handle_result t r (note_executed t s) of
             Blocks \<Rightarrow> None
           | Panics p \<Rightarrow> Some ((note_executed t s)\<lparr>pc := Exiting (Some p)\<rparr>)
           | Returns s' \<Rightarrow> Some (s'\<lparr>pc := Looping\<rparr>))
      | _ \<Rightarrow> None)"

text \<open>
  \<open>Run\<close> returns, or unwinds with the panic \<open>p\<close>: the deferred function runs. A panic of
  the deferred function replaces the one being unwound.
\<close>

definition do_Return :: "('t, 'b) system \<Rightarrow> ('t, 'b) system option" where
  "do_Return s =
     (case pc s of
        Exiting p \<Rightarrow>
          (case Run_deferred s of
             (Some p', s') \<Rightarrow> Some (s'\<lparr>pc := Panicked p'\<rparr>)
           | (None, s') \<Rightarrow>
               Some (s'\<lparr>pc := (case p of None \<Rightarrow> Stopped | Some p' \<Rightarrow> Panicked p')\<rparr>))
      | _ \<Rightarrow> None)"

definition do_Timer :: "nat \<Rightarrow> ('t, 'b) system \<Rightarrow> ('t, 'b) system option" where
  "do_Timer k s =
     (if k < length (timers s) \<and> timer_due (now s) (timers s ! k)
      then Some (s\<lparr>queue := Push (payload (timers s ! k)) (queue s),
                   timers := take k (timers s) @ drop (Suc k) (timers s)\<rparr>)
      else None)"

fun step :: "variant \<Rightarrow> ('t, 'b) system \<Rightarrow> 't event \<Rightarrow> ('t, 'b) system option" where
  "step v s (Push_ev t) = Some (s\<lparr>queue := Push t (queue s)\<rparr>)"
| "step v s Run_ev = do_Run s"
| "step v s Stop_ev = Some (s\<lparr>stop := True\<rparr>)"
| "step v s Watcher_ev = do_Watcher s"
| "step v s Loop_ev = do_Loop v s"
| "step v s (Task_ev r) = do_Task r s"
| "step v s Return_ev = do_Return s"
| "step v s (Timer_ev k) = do_Timer k s"
| "step v s (Tick_ev d) = Some (s\<lparr>now := now s + int d\<rparr>)"

fun run :: "variant \<Rightarrow> ('t, 'b) system \<Rightarrow> 't event list \<Rightarrow> ('t, 'b) system option" where
  "run v s [] = Some s"
| "run v s (e # es) = (case step v s e of None \<Rightarrow> None | Some s' \<Rightarrow> run v s' es)"

definition init :: "('t, 'b) queueImpl \<Rightarrow> ('t, 'b) system" where
  "init q = \<lparr>queue = q, pc = Idle, watcher = NoWatcher, stop = False, timers = [],
            now = 0, logs = [], executed = [], closes = 0\<rparr>"

subsection \<open>Notions used to state the properties\<close>

text \<open>The run loop is over: \<open>Run\<close> has returned or has panicked.\<close>

fun finished :: "'t pc \<Rightarrow> bool" where
  "finished Stopped = True"
| "finished (Panicked p) = True"
| "finished _ = False"

text \<open>The task that has been dequeued and is being called, if any.\<close>

fun inflight :: "'t pc \<Rightarrow> 't list" where
  "inflight (Executing t) = [t]"
| "inflight _ = []"

text \<open>Everything the queue has admitted, in order: called, being called, still buffered.\<close>

definition backlog :: "('t, 'b) system \<Rightarrow> 't list" where
  "backlog s = executed s @ inflight (pc s) @ tasks (queue s)"

fun is_Watcher :: "'t event \<Rightarrow> bool" where
  "is_Watcher Watcher_ev = True"
| "is_Watcher _ = False"

text \<open>
  \<open>teardowns k\<close> runs the deferred function of \<open>Run\<close> \<open>k\<close> times in a row; \<open>sync.Once\<close>
  serialises racing calls of \<open>Do\<close>, so racing attempts are attempts in some order.
\<close>

fun teardowns :: "nat \<Rightarrow> ('t, 'b) system \<Rightarrow> ('t, 'b) system outcome" where
  "teardowns 0 s = Returns s"
| "teardowns (Suc k) s =
     (case Run_deferred s of
        (Some p, s') \<Rightarrow> Panics p
      | (None, s') \<Rightarrow> teardowns k s')"

text \<open>Erasing the identifier: from the queue and from the two log lines that print it.\<close>

fun anonymous :: "log_entry \<Rightarrow> log_entry" where
  "anonymous (Debugf_started n) = Debugf_started []"
| "anonymous (Debugf_closed n) = Debugf_closed []"
| "anonymous (Infof_failed err d) = Infof_failed err d"

definition forget_id :: "('t, 'b) system \<Rightarrow> ('t, 'b) system" where
  "forget_id s = s\<lparr>queue := (queue s)\<lparr>id_label := []\<rparr>, logs := map anonymous (logs s)\<rparr>"

definition set_backoff :: "'b option \<Rightarrow> ('t, 'b) system \<Rightarrow> ('t, 'b) system" where
  "set_backoff b s = s\<lparr>queue := (queue s)\<lparr>retryBackoff := b\<rparr>\<rparr>"

subsection \<open>Invariants\<close>

definition close_inv :: "('t, 'b) system \<Rightarrow> bool" where
  "close_inv s =
     (closed (queue s) = closeOnce (queue s) \<and>
      closes s = (if closed (queue s) then 1 else 0) \<and>
      closed (queue s) = finished (pc s) \<and>
      pc s \<noteq> Exiting (Some CloseOfClosedChannel) \<and>
      pc s \<noteq> Panicked CloseOfClosedChannel)"

definition watcher_inv :: "('t, 'b) system \<Rightarrow> bool" where
  "watcher_inv s = ((pc s = Idle) = (watcher s = NoWatcher))"

definition drained :: "('t, 'b) system \<Rightarrow> bool" where
  "drained s =
     ((pc s = Exiting None \<or> pc s = Stopped \<longrightarrow> closing (queue s) \<and> tasks (queue s) = []) \<and>
      pc s \<noteq> Exiting (Some IndexOutOfRange) \<and> pc s \<noteq> Exiting (Some NilFuncCall) \<and>
      pc s \<noteq> Panicked IndexOutOfRange \<and> pc s \<noteq> Panicked NilFuncCall)"

definition delay_inv :: "int \<Rightarrow> ('t, 'b) system \<Rightarrow> bool" where
  "delay_inv d s =
     (delay (queue s) = d \<and> (\<forall>tm \<in> set (timers s). wait tm = d) \<and>
      (\<forall>err dl. Infof_failed err dl \<in> set (logs s) \<longrightarrow> dl = d))"

section \<open>Properties\<close>

subsection \<open>Runs\<close>

lemmas step_defs = do_Run_def do_Watcher_def do_Loop_def do_Task_def do_Return_def do_Timer_def
  Push_def get_def get_waits_def get_after_wait_def Run_HEAD_dequeue_def handle_result_def
  note_executed_def AfterFunc_def Run_deferred_def close_chan_def Run_watcher_def

lemmas step_splits = if_splits option.splits outcome.splits list.splits pc.splits
  task_result.splits

lemma run_append:
  "run v s (xs @ ys) = (case run v s xs of None \<Rightarrow> None | Some s' \<Rightarrow> run v s' ys)"
  by (induction xs arbitrary: s) (auto split: option.splits)

lemma run_invariant:
  assumes "\<And>s e s'. P s \<Longrightarrow> step v s e = Some s' \<Longrightarrow> P s'"
    and "P s" and "run v s evs = Some s'"
  shows "P s'"
  using assms(2,3)
proof (induction evs arbitrary: s)
  case Nil
  then show ?case by simp
next
  case (Cons e es)
  then show ?case using assms(1) by (auto split: option.splits)
qed

lemma run_Push_evs:
  "\<not> closing (queue s) \<Longrightarrow>
     run v s (map Push_ev ts @ evs) = run v (s\<lparr>queue := (queue s)\<lparr>tasks := tasks (queue s) @ ts\<rparr>\<rparr>) evs"
  by (induction ts arbitrary: s) (simp_all add: Push_def)

subsection \<open>The closing flag\<close>

lemma step_closing_mono:
  "step v s e = Some s' \<Longrightarrow> closing (queue s) \<Longrightarrow> closing (queue s')"
  by (cases e; cases v) (auto simp: step_defs split: step_splits)

lemma step_closing_change:
  "step v s e = Some s' \<Longrightarrow> closing (queue s') \<noteq> closing (queue s) \<Longrightarrow> e = Watcher_ev \<and> stop s"
  by (cases e; cases v) (auto simp: step_defs split: step_splits)

lemma run_closing_mono:
  "run v s evs = Some s' \<Longrightarrow> closing (queue s) \<Longrightarrow> closing (queue s')"
  using step_closing_mono by (rule run_invariant[where P = "\<lambda>s. closing (queue s)"])

lemma step_watcher_count:
  "watcher_inv s \<Longrightarrow> step v s e = Some s' \<Longrightarrow>
     watcher_inv s' \<and>
     (watcher s = Finished \<longrightarrow> watcher s' = Finished \<and> \<not> is_Watcher e) \<and>
     (is_Watcher e \<longrightarrow> watcher s' = Finished \<and> closing (queue s')) \<and>
     (\<not> is_Watcher e \<longrightarrow> closing (queue s') = closing (queue s) \<and>
        (watcher s' = Finished \<longrightarrow> watcher s = Finished))"
  by (cases e; cases v) (auto simp: watcher_inv_def step_defs split: step_splits)

lemma run_watcher_count:
  "watcher_inv s \<Longrightarrow> run v s evs = Some s' \<Longrightarrow>
     length (filter is_Watcher evs) \<le> (if watcher s = Finished then 0 else 1) \<and>
     closing (queue s') = (closing (queue s) \<or> 0 < length (filter is_Watcher evs))"
proof (induction evs arbitrary: s)
  case Nil
  then show ?case by simp
next
  case (Cons e es)
  then obtain s1 where 1: "step v s e = Some s1" and 2: "run v s1 es = Some s'"
    by (auto split: option.splits)
  from step_watcher_count[OF Cons.prems(1) 1] Cons.IH[OF _ 2] show ?case
    by (auto split: if_splits)
qed

subsection \<open>The close notification\<close>

lemma step_close_inv:
  "close_inv s \<Longrightarrow> step v s e = Some s' \<Longrightarrow> close_inv s'"
  by (cases e; cases v) (auto simp: close_inv_def step_defs split: step_splits)

lemma run_close_inv:
  "close_inv s \<Longrightarrow> run v s evs = Some s' \<Longrightarrow> close_inv s'"
  using step_close_inv by (rule run_invariant[where P = close_inv])

lemma init_close_inv: "close_inv (init (NewQueueWithID d n))"
  by (simp add: close_inv_def init_def NewQueueWithID_def)

lemma teardowns_closed:
  "closed (queue s) \<Longrightarrow> closeOnce (queue s) \<Longrightarrow> teardowns k s = Returns s"
  by (induction k) (simp_all add: Run_deferred_def)

lemma teardowns_open:
  assumes "\<not> closed (queue s)" and "\<not> closeOnce (queue s)"
  shows "teardowns (Suc k) s =
           Returns (s\<lparr>queue := (queue s)\<lparr>closeOnce := True, closed := True\<rparr>,
                      logs := logs s @ [Debugf_closed (id_label (queue s))],
                      closes := closes s + 1\<rparr>)"
  using assms by (simp add: Run_deferred_def close_chan_def teardowns_closed)

subsection \<open>Order of execution\<close>

lemma step_backlog:
  "step v s e = Some s' \<Longrightarrow> prefix (backlog s) (backlog s')"
  by (cases e; cases v) (auto simp: backlog_def step_defs split: step_splits)

lemma run_backlog:
  "run v s evs = Some s' \<Longrightarrow> prefix (backlog s) (backlog s')"
proof (induction evs arbitrary: s)
  case Nil
  then show ?case by simp
next
  case (Cons e es)
  then obtain s1 where 1: "step v s e = Some s1" and 2: "run v s1 es = Some s'"
    by (auto split: option.splits)
  from step_backlog[OF 1] Cons.IH[OF 2] show ?case by (rule prefix_order.trans)
qed

lemma prefix_take_agree:
  "prefix ts (ex @ rest) \<Longrightarrow> take (length ts) ex = take (length ex) ts"
  by (auto simp: prefix_def append_eq_append_conv2)

subsection \<open>Draining in the HEAD loop\<close>

lemma step_drained:
  "drained s \<Longrightarrow> close_inv s \<Longrightarrow> step HEAD s e = Some s' \<Longrightarrow> drained s'"
  by (cases e) (auto simp: drained_def close_inv_def step_defs split: step_splits)

lemma run_drained:
  assumes "drained s \<and> close_inv s" and "run HEAD s evs = Some s'"
  shows "drained s' \<and> close_inv s'"
  using _ assms
  by (rule run_invariant[where P = "\<lambda>s. drained s \<and> close_inv s"])
     (auto intro: step_drained step_close_inv)

lemma init_drained: "drained (init q)"
  by (simp add: drained_def init_def)

subsection \<open>The other loop after closing\<close>

text \<open>
  With \<open>for q.processNextItem() {}\<close>, once \<open>closing\<close> is set the buffer is never touched
  again and no further task is dequeued: the tasks called or being called stay the same.
\<close>

lemma step_Incoming_closing:
  "closing (queue s) \<Longrightarrow> step Incoming s e = Some s' \<Longrightarrow>
     closing (queue s') \<and> tasks (queue s') = tasks (queue s) \<and>
     executed s' @ inflight (pc s') = executed s @ inflight (pc s)"
  by (cases e) (auto simp: step_defs split: step_splits)

lemma run_Incoming_closing:
  "closing (queue s) \<Longrightarrow> run Incoming s evs = Some s' \<Longrightarrow>
     closing (queue s') \<and> tasks (queue s') = tasks (queue s) \<and>
     executed s' @ inflight (pc s') = executed s @ inflight (pc s)"
proof (induction evs arbitrary: s)
  case Nil
  then show ?case by simp
next
  case (Cons e es)
  then obtain s1 where 1: "step Incoming s e = Some s1" and 2: "run Incoming s1 es = Some s'"
    by (auto split: option.splits)
  from step_Incoming_closing[OF Cons.prems(1) 1] Cons.IH[OF _ 2] show ?case by simp
qed

subsection \<open>The identifier\<close>

lemma step_forget_id:
  "step v (forget_id s) e = map_option forget_id (step v s e)"
  by (cases e; cases v) (auto simp: forget_id_def step_defs split: step_splits)

lemma run_forget_id:
  "run v (forget_id s) evs = map_option forget_id (run v s evs)"
proof (induction evs arbitrary: s)
  case Nil
  then show ?case by simp
next
  case (Cons e es)
  then show ?case by (cases "step v s e") (simp_all add: step_forget_id)
qed

lemma forget_id_init:
  "forget_id (init (NewQueueWithID d n1)) = forget_id (init (NewQueueWithID d n2))"
  by (simp add: forget_id_def init_def NewQueueWithID_def)

subsection \<open>The retry delay\<close>

lemma step_set_backoff:
  "step v (set_backoff b s) e = map_option (set_backoff b) (step v s e)"
  by (cases e; cases v) (auto simp: set_backoff_def step_defs split: step_splits)

lemma run_set_backoff:
  "run v (set_backoff b s) evs = map_option (set_backoff b) (run v s evs)"
proof (induction evs arbitrary: s)
  case Nil
  then show ?case by simp
next
  case (Cons e es)
  then show ?case by (cases "step v s e") (simp_all add: step_set_backoff)
qed

lemma step_delay_inv:
  "delay_inv d s \<Longrightarrow> step v s e = Some s' \<Longrightarrow> delay_inv d s'"
  by (cases e; cases v)
     (auto simp: delay_inv_def step_defs split: step_splits dest!: in_set_takeD in_set_dropD)

lemma run_delay_inv:
  "delay_inv d s \<Longrightarrow> run v s evs = Some s' \<Longrightarrow> delay_inv d s'"
  using step_delay_inv by (rule run_invariant[where P = "delay_inv d"])

subsection \<open>The loop bodies and the transitions\<close>

text \<open>
  A call of \<open>processNextItem\<close> is the transition \<open>Loop_ev\<close> followed, when a task was
  dequeued, by \<open>Task_ev\<close> with what the call of the task did; other goroutines can run
  between the two, since the task is called without the lock.
\<close>

lemma processNextItem_steps:
  assumes "pc s = Looping"
  shows "get (queue s) = Blocks \<Longrightarrow>
           processNextItem call s = Blocks \<and> step Incoming s Loop_ev = None"
    and "get (queue s) = Returns ((task, True), q') \<Longrightarrow>
           processNextItem call s = Returns (False, s\<lparr>queue := q'\<rparr>) \<and>
           step Incoming s Loop_ev = Some (s\<lparr>queue := q', pc := Exiting None\<rparr>)"
    and "get (queue s) = Returns ((Some t, False), q') \<Longrightarrow> call t \<noteq> Crashes \<Longrightarrow>
           \<exists>s'. run Incoming s [Loop_ev, Task_ev (call t)] = Some s' \<and>
                processNextItem call s = Returns (True, s')"
    and "get (queue s) = Returns ((Some t, False), q') \<Longrightarrow> call t = Crashes \<Longrightarrow>
           processNextItem call s = Panics TaskPanic \<and>
           (\<exists>s'. run Incoming s [Loop_ev, Task_ev (call t)] = Some s' \<and>
                 pc s' = Exiting (Some TaskPanic))"
  using assms
  by (auto simp: processNextItem_def do_Loop_def do_Task_def handle_result_def note_executed_def
        AfterFunc_def split: task_result.splits)

lemma Run_HEAD_iteration_steps:
  assumes "pc s = Looping"
  shows "Run_HEAD_dequeue (queue s) = Blocks \<Longrightarrow>
           Run_HEAD_iteration call s = Blocks \<and> step HEAD s Loop_ev = None"
    and "Run_HEAD_dequeue (queue s) = Returns (None, q') \<Longrightarrow>
           Run_HEAD_iteration call s = Returns (False, s\<lparr>queue := q'\<rparr>) \<and>
           step HEAD s Loop_ev = Some (s\<lparr>queue := q', pc := Exiting None\<rparr>)"
    and "Run_HEAD_dequeue (queue s) = Returns (Some t, q') \<Longrightarrow> call t \<noteq> Crashes \<Longrightarrow>
           \<exists>s'. run HEAD s [Loop_ev, Task_ev (call t)] = Some s' \<and>
                Run_HEAD_iteration call s = Returns (True, s')"
    and "Run_HEAD_dequeue (queue s) = Returns (Some t, q') \<Longrightarrow> call t = Crashes \<Longrightarrow>
           Run_HEAD_iteration call s = Panics TaskPanic \<and>
           (\<exists>s'. run HEAD s [Loop_ev, Task_ev (call t)] = Some s' \<and>
                 pc s' = Exiting (Some TaskPanic))"
  using assms
  by (auto simp: Run_HEAD_iteration_def do_Loop_def do_Task_def handle_result_def note_executed_def
        AfterFunc_def split: task_result.splits)

section \<open>The claims\<close>

subsection \<open>C1: draining before stopping\<close>

text \<open>
  Three runs against the claim as it is stated. \<open>get\<close> returns the shutdown indicator
  although two tasks are buffered. With the loop \<open>for q.processNextItem() {}\<close>, stop is
  signalled with two tasks buffered and none being called, and the channel is closed while
  both are still in the buffer and neither has been called. With the \<open>HEAD\<close> loop, in the
  same situation, the first task panics: \<open>Run\<close> unwinds, its deferred function closes the
  channel, and the second task is still in the buffer and has not been called.
\<close>

theorem get_shutdown_with_pending_counterexample:
  "get \<lparr>delay = 5, retryBackoff = None :: unit option, tasks = [1 :: nat, 2],
         closing = True, closed = False, closeOnce = False, id_label = ''q''\<rparr> =
     Returns ((None, True), \<lparr>delay = 5, retryBackoff = None :: unit option, tasks = [1 :: nat, 2],
         closing = True, closed = False, closeOnce = False, id_label = ''q''\<rparr>) \<and>
   run Incoming (init (NewQueueWithID 5 ''q''))
     [Push_ev 1, Push_ev 2, Run_ev, Stop_ev, Watcher_ev, Loop_ev, Return_ev] =
     Some \<lparr>queue = \<lparr>delay = 5, retryBackoff = None :: unit option, tasks = [1 :: nat, 2],
                  closing = True, closed = True, closeOnce = True, id_label = ''q''\<rparr>,
         pc = Stopped, watcher = Finished, stop = True, timers = [], now = 0,
         logs = [Debugf_started ''q'', Debugf_closed ''q''], executed = [], closes = 1\<rparr> \<and>
   run HEAD (init (NewQueueWithID 5 ''q''))
     [Push_ev 1, Push_ev 2, Run_ev, Stop_ev, Watcher_ev, Loop_ev, Task_ev Crashes, Return_ev] =
     Some \<lparr>queue = \<lparr>delay = 5, retryBackoff = None :: unit option, tasks = [2 :: nat],
                  closing = True, closed = True, closeOnce = True, id_label = ''q''\<rparr>,
         pc = Panicked TaskPanic, watcher = Finished, stop = True, timers = [], now = 0,
         logs = [Debugf_started ''q'', Debugf_closed ''q''], executed = [1], closes = 1\<rparr>"
  by (simp add: step_defs init_def NewQueueWithID_def)

text \<open>
  C1, as amended. \<open>get\<close> returns the shutdown indicator exactly when \<open>closing\<close> is set,
  whatever the buffer holds. The dequeue of the \<open>HEAD\<close> loop ends the loop exactly when
  \<open>closing\<close> is set and the buffer is empty. With the \<open>HEAD\<close> loop, once the channel is
  closed either a task has panicked, or \<open>Run\<close> has returned, the buffer is empty, and every
  task that was buffered or being called at any earlier moment has been called, in
  buffer order. With the loop \<open>for q.processNextItem() {}\<close>, from the moment \<open>closing\<close> is
  set, whatever happens, the buffer stays as it is and the tasks called or being called
  stay the same: no task that is buffered then is ever called.
\<close>

theorem drain_before_stop_HEAD:
  "(get q = Returns ((t, True), q') \<longleftrightarrow> closing q \<and> t = None \<and> q' = q) \<and>
   (Run_HEAD_dequeue q = Returns (None, q') \<longleftrightarrow> closing q \<and> tasks q = [] \<and> q' = q) \<and>
   (run HEAD (init (NewQueueWithID d n)) evs0 = Some s0 \<longrightarrow> run HEAD s0 evs = Some s \<longrightarrow>
      Closed (queue s) \<longrightarrow>
        pc s = Panicked TaskPanic \<or>
        (pc s = Stopped \<and> tasks (queue s) = [] \<and>
         prefix (executed s0 @ inflight (pc s0) @ tasks (queue s0)) (executed s))) \<and>
   (closing (queue si) \<longrightarrow> run Incoming si evsi = Some si' \<longrightarrow>
      closing (queue si') \<and> tasks (queue si') = tasks (queue si) \<and>
      executed si' @ inflight (pc si') = executed si @ inflight (pc si))"
proof (intro conjI impI)
  show "get q = Returns ((t, True), q') \<longleftrightarrow> closing q \<and> t = None \<and> q' = q"
    by (auto simp: get_def get_waits_def get_after_wait_def split: list.splits)
  show "Run_HEAD_dequeue q = Returns (None, q') \<longleftrightarrow> closing q \<and> tasks q = [] \<and> q' = q"
    by (auto simp: Run_HEAD_dequeue_def split: list.splits)
next
  assume r0: "run HEAD (init (NewQueueWithID d n)) evs0 = Some s0"
    and r: "run HEAD s0 evs = Some s" and c: "Closed (queue s)"
  have "drained s0 \<and> close_inv s0"
    using run_drained[OF _ r0] init_drained init_close_inv by blast
  then have inv: "drained s \<and> close_inv s"
    using r by (rule run_drained)
  from c inv have fin: "finished (pc s)"
    by (simp add: close_inv_def Closed_def)
  have pre: "prefix (backlog s0) (backlog s)"
    using r by (rule run_backlog)
  show "pc s = Panicked TaskPanic \<or>
        (pc s = Stopped \<and> tasks (queue s) = [] \<and>
         prefix (executed s0 @ inflight (pc s0) @ tasks (queue s0)) (executed s))"
  proof (cases "pc s")
    case Stopped
    with inv have "tasks (queue s) = []" by (simp add: drained_def)
    with Stopped pre show ?thesis by (simp add: backlog_def)
  next
    case (Panicked p)
    with inv show ?thesis by (cases p) (simp_all add: drained_def close_inv_def)
  qed (use fin in simp_all)
next
  assume ci: "closing (queue si)" and ri: "run Incoming si evsi = Some si'"
  from run_Incoming_closing[OF ci ri]
  show "closing (queue si')" and "tasks (queue si') = tasks (queue si)"
    and "executed si' @ inflight (pc si') = executed si @ inflight (pc si)"
    by simp_all
qed

text \<open>
  Stop is signalled with two tasks buffered and none being called. The \<open>HEAD\<close> loop calls
  both before the channel is closed; the other loop ends, a timer and a \<open>Push\<close> later
  notwithstanding, with both still buffered and none called.
\<close>

theorem drain_before_stop_HEAD_witness:
  "run HEAD (init (NewQueueWithID 5 ''q''))
     [Push_ev 1, Push_ev 2, Run_ev, Stop_ev, Watcher_ev] =
     Some \<lparr>queue = \<lparr>delay = 5, retryBackoff = None :: unit option, tasks = [1 :: nat, 2],
                  closing = True, closed = False, closeOnce = False, id_label = ''q''\<rparr>,
         pc = Looping, watcher = Finished, stop = True, timers = [], now = 0,
         logs = [Debugf_started ''q''], executed = [], closes = 0\<rparr> \<and>
   run HEAD \<lparr>queue = \<lparr>delay = 5, retryBackoff = None :: unit option, tasks = [1 :: nat, 2],
                  closing = True, closed = False, closeOnce = False, id_label = ''q''\<rparr>,
         pc = Looping, watcher = Finished, stop = True, timers = [], now = 0,
         logs = [Debugf_started ''q''], executed = [], closes = 0\<rparr>
     [Loop_ev, Task_ev Succeeds, Loop_ev, Task_ev Succeeds, Loop_ev, Return_ev] =
     Some \<lparr>queue = \<lparr>delay = 5, retryBackoff = None :: unit option, tasks = [] :: nat list,
                  closing = True, closed = True, closeOnce = True, id_label = ''q''\<rparr>,
         pc = Stopped, watcher = Finished, stop = True, timers = [], now = 0,
         logs = [Debugf_started ''q'', Debugf_closed ''q''], executed = [1, 2],
         closes = 1\<rparr> \<and>
   Closed (queue \<lparr>queue = \<lparr>delay = 5, retryBackoff = None :: unit option, tasks = [] :: nat list,
                  closing = True, closed = True, closeOnce = True, id_label = ''q''\<rparr>,
         pc = Stopped, watcher = Finished, stop = True, timers = [], now = 0,
         logs = [Debugf_started ''q'', Debugf_closed ''q''], executed = [1, 2],
         closes = 1\<rparr>) \<and>
   prefix (executed \<lparr>queue = \<lparr>delay = 5, retryBackoff = None :: unit option, tasks = [1 :: nat, 2],
                  closing = True, closed = False, closeOnce = False, id_label = ''q''\<rparr>,
         pc = Looping, watcher = Finished, stop = True, timers = [], now = 0,
         logs = [Debugf_started ''q''], executed = [], closes = 0\<rparr> @ inflight (pc \<lparr>queue = \<lparr>delay = 5, retryBackoff = None :: unit option, tasks = [1 :: nat, 2],
                  closing = True, closed = False, closeOnce = False, id_label = ''q''\<rparr>,
         pc = Looping, watcher = Finished, stop = True, timers = [], now = 0,
         logs = [Debugf_started ''q''], executed = [], closes = 0\<rparr>) @ tasks (queue \<lparr>queue = \<lparr>delay = 5, retryBackoff = None :: unit option, tasks = [1 :: nat, 2],
                  closing = True, closed = False, closeOnce = False, id_label = ''q''\<rparr>,
         pc = Looping, watcher = Finished, stop = True, timers = [], now = 0,
         logs = [Debugf_started ''q''], executed = [], closes = 0\<rparr>))
     (executed \<lparr>queue = \<lparr>delay = 5, retryBackoff = None :: unit option, tasks = [] :: nat list,
                  closing = True, closed = True, closeOnce = True, id_label = ''q''\<rparr>,
         pc = Stopped, watcher = Finished, stop = True, timers = [], now = 0,
         logs = [Debugf_started ''q'', Debugf_closed ''q''], executed = [1, 2],
         closes = 1\<rparr>) \<and>
   closing (queue \<lparr>queue = \<lparr>delay = 5, retryBackoff = None :: unit option, tasks = [1 :: nat, 2],
                  closing = True, closed = False, closeOnce = False, id_label = ''q''\<rparr>,
         pc = Looping, watcher = Finished, stop = True, timers = [], now = 0,
         logs = [Debugf_started ''q''], executed = [], closes = 0\<rparr>) \<and>
   run Incoming \<lparr>queue = \<lparr>delay = 5, retryBackoff = None :: unit option, tasks = [1 :: nat, 2],
                  closing = True, closed = False, closeOnce = False, id_label = ''q''\<rparr>,
         pc = Looping, watcher = Finished, stop = True, timers = [], now = 0,
         logs = [Debugf_started ''q''], executed = [], closes = 0\<rparr> [Push_ev 3, Loop_ev, Return_ev] =
     Some \<lparr>queue = \<lparr>delay = 5, retryBackoff = None :: unit option, tasks = [1 :: nat, 2],
                  closing = True, closed = True, closeOnce = True, id_label = ''q''\<rparr>,
         pc = Stopped, watcher = Finished, stop = True, timers = [], now = 0,
         logs = [Debugf_started ''q'', Debugf_closed ''q''], executed = [], closes = 1\<rparr> \<and>
   tasks (queue \<lparr>queue = \<lparr>delay = 5, retryBackoff = None :: unit option, tasks = [1 :: nat, 2],
                  closing = True, closed = True, closeOnce = True, id_label = ''q''\<rparr>,
         pc = Stopped, watcher = Finished, stop = True, timers = [], now = 0,
         logs = [Debugf_started ''q'', Debugf_closed ''q''], executed = [], closes = 1\<rparr>) = [1, 2] \<and>
   executed \<lparr>queue = \<lparr>delay = 5, retryBackoff = None :: unit option, tasks = [1 :: nat, 2],
                  closing = True, closed = True, closeOnce = True, id_label = ''q''\<rparr>,
         pc = Stopped, watcher = Finished, stop = True, timers = [], now = 0,
         logs = [Debugf_started ''q'', Debugf_closed ''q''], executed = [], closes = 1\<rparr> @ inflight (pc \<lparr>queue = \<lparr>delay = 5, retryBackoff = None :: unit option, tasks = [1 :: nat, 2],
                  closing = True, closed = True, closeOnce = True, id_label = ''q''\<rparr>,
         pc = Stopped, watcher = Finished, stop = True, timers = [], now = 0,
         logs = [Debugf_started ''q'', Debugf_closed ''q''], executed = [], closes = 1\<rparr>) = []"
proof -
  let ?mid = "\<lparr>queue = \<lparr>delay = 5, retryBackoff = None :: unit option, tasks = [1 :: nat, 2],
                  closing = True, closed = False, closeOnce = False, id_label = ''q''\<rparr>,
         pc = Looping, watcher = Finished, stop = True, timers = [], now = 0,
         logs = [Debugf_started ''q''], executed = [], closes = 0\<rparr>"
  let ?fin = "\<lparr>queue = \<lparr>delay = 5, retryBackoff = None :: unit option, tasks = [] :: nat list,
                  closing = True, closed = True, closeOnce = True, id_label = ''q''\<rparr>,
         pc = Stopped, watcher = Finished, stop = True, timers = [], now = 0,
         logs = [Debugf_started ''q'', Debugf_closed ''q''], executed = [1, 2],
         closes = 1\<rparr>"
  let ?inc = "\<lparr>queue = \<lparr>delay = 5, retryBackoff = None :: unit option, tasks = [1 :: nat, 2],
                  closing = True, closed = True, closeOnce = True, id_label = ''q''\<rparr>,
         pc = Stopped, watcher = Finished, stop = True, timers = [], now = 0,
         logs = [Debugf_started ''q'', Debugf_closed ''q''], executed = [], closes = 1\<rparr>"
  let ?first = "[Push_ev 1, Push_ev 2, Run_ev, Stop_ev, Watcher_ev] :: nat event list"
  let ?rest = "[Loop_ev, Task_ev Succeeds, Loop_ev, Task_ev Succeeds, Loop_ev, Return_ev]
               :: nat event list"
  let ?other = "[Push_ev 3, Loop_ev, Return_ev] :: nat event list"
  have r0: "run HEAD (init (NewQueueWithID 5 ''q'')) ?first = Some ?mid"
    by (simp add: step_defs init_def NewQueueWithID_def)
  have r: "run HEAD ?mid ?rest = Some ?fin"
    by (simp add: step_defs)
  have c: "Closed (queue ?fin)"
    by (simp add: Closed_def)
  have ci: "closing (queue ?mid)"
    by simp
  have ri: "run Incoming ?mid ?other = Some ?inc"
    by (simp add: step_defs)
  note th = drain_before_stop_HEAD
    [where d = 5 and n = "''q''" and ?evs0.0 = ?first and ?s0.0 = ?mid and evs = ?rest and s = ?fin
       and si = ?mid and evsi = ?other and si' = ?inc]
  from th r0 r c
  have p: "prefix (executed ?mid @ inflight (pc ?mid) @ tasks (queue ?mid)) (executed ?fin)"
    by simp
  from th ci ri
  have f: "tasks (queue ?inc) = tasks (queue ?mid) \<and>
           executed ?inc @ inflight (pc ?inc) = executed ?mid @ inflight (pc ?mid)"
    by blast
  then have t: "tasks (queue ?inc) = [1, 2]" and e: "executed ?inc @ inflight (pc ?inc) = []"
    by simp_all
  show ?thesis by (intro conjI r0 r c p ci ri t e)
qed

subsection \<open>C2: Push after shutdown\<close>

text \<open>
  C2. When \<open>closing\<close> is set, \<open>Push\<close> leaves the queue as it is; otherwise it appends the
  task at the tail of the buffer. \<open>Push\<close> has no result and is always enabled: nothing is
  reported to the caller. A \<open>Push\<close> into a closing queue changes nothing in the system,
  so every continuation is the one without it: the task is not called on account of it.
\<close>

theorem Push_after_shutdown:
  "(closing q \<longrightarrow> Push task q = q) \<and>
   (\<not> closing q \<longrightarrow> Push task q = q\<lparr>tasks := tasks q @ [task]\<rparr>) \<and>
   step v s (Push_ev task) \<noteq> None \<and>
   (closing (queue s) \<longrightarrow> run v s (Push_ev task # evs) = run v s evs)"
  by (auto simp: Push_def)

text \<open>A closing queue drops the task 9 and the loop ends without calling it; an open one appends it.\<close>

theorem Push_after_shutdown_witness:
  "closing \<lparr>delay = 5, retryBackoff = None :: unit option, tasks = [1 :: nat],
         closing = True, closed = False, closeOnce = False, id_label = ''q''\<rparr> \<and>
   Push 9 \<lparr>delay = 5, retryBackoff = None :: unit option, tasks = [1 :: nat],
         closing = True, closed = False, closeOnce = False, id_label = ''q''\<rparr> = \<lparr>delay = 5, retryBackoff = None :: unit option, tasks = [1 :: nat],
         closing = True, closed = False, closeOnce = False, id_label = ''q''\<rparr> \<and>
   \<not> closing \<lparr>delay = 5, retryBackoff = None :: unit option, tasks = [1 :: nat],
         closing = False, closed = False, closeOnce = False, id_label = ''q''\<rparr> \<and>
   Push 9 \<lparr>delay = 5, retryBackoff = None :: unit option, tasks = [1 :: nat],
         closing = False, closed = False, closeOnce = False, id_label = ''q''\<rparr> = \<lparr>delay = 5, retryBackoff = None :: unit option, tasks = [1 :: nat],
         closing = False, closed = False, closeOnce = False, id_label = ''q''\<rparr>\<lparr>tasks := [1, 9]\<rparr> \<and>
   run Incoming (init \<lparr>delay = 5, retryBackoff = None :: unit option, tasks = [1 :: nat],
         closing = True, closed = False, closeOnce = False, id_label = ''q''\<rparr>) [Push_ev 9, Run_ev, Loop_ev, Return_ev] =
   run Incoming (init \<lparr>delay = 5, retryBackoff = None :: unit option, tasks = [1 :: nat],
         closing = True, closed = False, closeOnce = False, id_label = ''q''\<rparr>) [Run_ev, Loop_ev, Return_ev]"
  using Push_after_shutdown [of "\<lparr>delay = 5, retryBackoff = None :: unit option, tasks = [1 :: nat],
         closing = True, closed = False, closeOnce = False, id_label = ''q''\<rparr>" 9 Incoming "init \<lparr>delay = 5, retryBackoff = None :: unit option, tasks = [1 :: nat],
         closing = True, closed = False, closeOnce = False, id_label = ''q''\<rparr>" "[Run_ev, Loop_ev, Return_ev]"]
    Push_after_shutdown [of "\<lparr>delay = 5, retryBackoff = None :: unit option, tasks = [1 :: nat],
         closing = False, closed = False, closeOnce = False, id_label = ''q''\<rparr>" 9 Incoming "init \<lparr>delay = 5, retryBackoff = None :: unit option, tasks = [1 :: nat],
         closing = False, closed = False, closeOnce = False, id_label = ''q''\<rparr>" "[]"]
  by (simp add: init_def)

subsection \<open>C3: FIFO order\<close>

text \<open>
  C3. \<open>get\<close> on a queue that is not closing removes and returns the head of the buffer.
  When \<open>ts\<close> are pushed on a new queue before anything else happens, then at every later
  moment the tasks called so far, the one being called and the buffer start with \<open>ts\<close>:
  the tasks are called in the order of their pushes.
\<close>

theorem fifo_order:
  "(\<not> closing q \<longrightarrow> tasks q = task # rest \<longrightarrow>
      get q = Returns ((Some task, False), q\<lparr>tasks := rest\<rparr>)) \<and>
   (run v (init (NewQueueWithID d n)) (map Push_ev ts @ evs) = Some (s :: ('t, 'b) system) \<longrightarrow>
      prefix ts (executed s @ inflight (pc s) @ tasks (queue s)) \<and>
      take (length ts) (executed s) = take (length (executed s)) ts)"
proof (intro conjI impI)
  show "get q = Returns ((Some task, False), q\<lparr>tasks := rest\<rparr>)"
    if "\<not> closing q" "tasks q = task # rest"
    using that by (simp add: get_def get_waits_def get_after_wait_def)
next
  assume r: "run v (init (NewQueueWithID d n)) (map Push_ev ts @ evs) = Some s"
  let ?s0 = "init (NewQueueWithID d n) :: ('t, 'b) system"
  let ?s1 = "?s0\<lparr>queue := (queue ?s0)\<lparr>tasks := tasks (queue ?s0) @ ts\<rparr>\<rparr>"
  have "\<not> closing (queue ?s0)" by (simp add: init_def NewQueueWithID_def)
  then have "run v ?s0 (map Push_ev ts @ evs) = run v ?s1 evs" by (rule run_Push_evs)
  with r have "run v ?s1 evs = Some s" by simp
  then have "prefix (backlog ?s1) (backlog s)" by (rule run_backlog)
  then show p: "prefix ts (executed s @ inflight (pc s) @ tasks (queue s))"
    by (simp add: backlog_def init_def NewQueueWithID_def)
  then show "take (length ts) (executed s) = take (length (executed s)) ts"
    by (rule prefix_take_agree)
qed

text \<open>Three tasks are pushed, the loop starts, calls the first and dequeues the second.\<close>

theorem fifo_order_witness:
  "\<not> closing \<lparr>delay = 5, retryBackoff = None :: unit option, tasks = [1 :: nat, 2],
         closing = False, closed = False, closeOnce = False, id_label = ''q''\<rparr> \<and>
   get \<lparr>delay = 5, retryBackoff = None :: unit option, tasks = [1 :: nat, 2],
         closing = False, closed = False, closeOnce = False, id_label = ''q''\<rparr> = Returns ((Some 1, False), \<lparr>delay = 5, retryBackoff = None :: unit option, tasks = [2 :: nat],
         closing = False, closed = False, closeOnce = False, id_label = ''q''\<rparr>) \<and>
   run Incoming (init (NewQueueWithID 5 ''q''))
     (map Push_ev [1, 2, 3] @ [Run_ev, Loop_ev, Task_ev Succeeds, Loop_ev]) =
     Some \<lparr>queue = \<lparr>delay = 5, retryBackoff = None :: unit option, tasks = [3 :: nat],
                     closing = False, closed = False, closeOnce = False, id_label = ''q''\<rparr>,
            pc = Executing 2, watcher = Waiting, stop = False, timers = [], now = 0,
            logs = [Debugf_started ''q''], executed = [1], closes = 0\<rparr> \<and>
   prefix [1 :: nat, 2, 3] ([1] @ [2] @ [3])"
  using fifo_order [of "\<lparr>delay = 5, retryBackoff = None :: unit option, tasks = [1 :: nat, 2],
         closing = False, closed = False, closeOnce = False, id_label = ''q''\<rparr>" 1 "[2]" Incoming 5 "''q''" "[1, 2, 3]"
      "[Run_ev, Loop_ev, Task_ev Succeeds, Loop_ev]"
      "\<lparr>queue = \<lparr>delay = 5, retryBackoff = None :: unit option, tasks = [3 :: nat],
                 closing = False, closed = False, closeOnce = False, id_label = ''q''\<rparr>,
        pc = Executing 2, watcher = Waiting, stop = False, timers = [], now = 0,
        logs = [Debugf_started ''q''], executed = [1], closes = 0\<rparr>"]
  by (simp add: step_defs init_def NewQueueWithID_def)

subsection \<open>C9: the head access is in bounds\<close>

text \<open>
  C9. When \<open>get\<close> is past its wait loop and \<open>closing\<close> is not set, the buffer is not empty,
  and the code after the loop returns the head and keeps the rest; \<open>get\<close> never panics.
\<close>

theorem get_head_in_bounds:
  "(\<not> get_waits q \<longrightarrow> \<not> closing q \<longrightarrow>
      tasks q \<noteq> [] \<and>
      get_after_wait q = Returns ((Some (hd (tasks q)), False), q\<lparr>tasks := tl (tasks q)\<rparr>)) \<and>
   get q \<noteq> Panics p"
  by (auto simp: get_def get_waits_def get_after_wait_def split: if_splits list.splits)

theorem get_head_in_bounds_witness:
  "\<not> get_waits \<lparr>delay = 5, retryBackoff = None :: unit option, tasks = [1 :: nat, 2],
         closing = False, closed = False, closeOnce = False, id_label = ''q''\<rparr> \<and>
   \<not> closing \<lparr>delay = 5, retryBackoff = None :: unit option, tasks = [1 :: nat, 2],
         closing = False, closed = False, closeOnce = False, id_label = ''q''\<rparr> \<and>
   get_after_wait \<lparr>delay = 5, retryBackoff = None :: unit option, tasks = [1 :: nat, 2],
         closing = False, closed = False, closeOnce = False, id_label = ''q''\<rparr> = Returns ((Some 1, False), \<lparr>delay = 5, retryBackoff = None :: unit option, tasks = [2 :: nat],
         closing = False, closed = False, closeOnce = False, id_label = ''q''\<rparr>) \<and>
   get \<lparr>delay = 5, retryBackoff = None :: unit option, tasks = [1 :: nat, 2],
         closing = False, closed = False, closeOnce = False, id_label = ''q''\<rparr> \<noteq> Panics IndexOutOfRange"
  using get_head_in_bounds [of "\<lparr>delay = 5, retryBackoff = None :: unit option, tasks = [1 :: nat, 2],
         closing = False, closed = False, closeOnce = False, id_label = ''q''\<rparr>" IndexOutOfRange]
  by (simp add: get_waits_def)

subsection \<open>C10: what get changes\<close>

text \<open>
  C10. When \<open>get\<close> returns the shutdown indicator, the queue is returned as it was and the
  task is nil. When it returns a task, the task is the head of the buffer, the buffer
  keeps the rest in order, and no other field changes.
\<close>

theorem get_frame:
  "get q = Returns ((t, sd), q') \<Longrightarrow>
     (sd \<longrightarrow> q' = q \<and> t = None) \<and>
     (\<not> sd \<longrightarrow> (\<exists>task. t = Some task \<and> tasks q = task # tasks q') \<and>
               q' = q\<lparr>tasks := tasks q'\<rparr>)"
  by (auto simp: get_def get_waits_def get_after_wait_def split: if_splits list.splits)

theorem get_frame_witness:
  "get \<lparr>delay = 5, retryBackoff = None :: unit option, tasks = [1 :: nat, 2],
         closing = False, closed = False, closeOnce = False, id_label = ''q''\<rparr> = Returns ((Some 1, False), \<lparr>delay = 5, retryBackoff = None :: unit option, tasks = [2 :: nat],
         closing = False, closed = False, closeOnce = False, id_label = ''q''\<rparr>) \<and>
   tasks \<lparr>delay = 5, retryBackoff = None :: unit option, tasks = [1 :: nat, 2],
         closing = False, closed = False, closeOnce = False, id_label = ''q''\<rparr> = 1 # tasks \<lparr>delay = 5, retryBackoff = None :: unit option, tasks = [2 :: nat],
         closing = False, closed = False, closeOnce = False, id_label = ''q''\<rparr> \<and>
   get \<lparr>delay = 5, retryBackoff = None :: unit option, tasks = [1 :: nat],
         closing = True, closed = False, closeOnce = False, id_label = ''q''\<rparr> = Returns ((None, True), \<lparr>delay = 5, retryBackoff = None :: unit option, tasks = [1 :: nat],
         closing = True, closed = False, closeOnce = False, id_label = ''q''\<rparr>)"
  using get_frame [of "\<lparr>delay = 5, retryBackoff = None :: unit option, tasks = [1 :: nat, 2],
         closing = False, closed = False, closeOnce = False, id_label = ''q''\<rparr>" "Some 1" False "\<lparr>delay = 5, retryBackoff = None :: unit option, tasks = [2 :: nat],
         closing = False, closed = False, closeOnce = False, id_label = ''q''\<rparr>"]
    get_frame [of "\<lparr>delay = 5, retryBackoff = None :: unit option, tasks = [1 :: nat],
         closing = True, closed = False, closeOnce = False, id_label = ''q''\<rparr>" None True "\<lparr>delay = 5, retryBackoff = None :: unit option, tasks = [1 :: nat],
         closing = True, closed = False, closeOnce = False, id_label = ''q''\<rparr>"]
  by (simp add: get_def get_waits_def get_after_wait_def)

subsection \<open>C4: retry on failure\<close>

text \<open>
  C4. When the task being called reports a failure, the loop goes back to its head with
  the buffer as it was and one more timer, armed now for the queue's delay and holding
  the same task. The loop does not wait for the timer: if the queue is not closing and
  the buffer is not empty, the next pass dequeues the head at once. The timer can fire
  only once the delay has elapsed, and firing is a \<open>Push\<close> of the task. When the task
  reports success, no timer is armed and the buffer is as it was.
\<close>

theorem retry_on_failure:
  assumes "pc s = Executing t"
  shows "(\<exists>s1. step v s (Task_ev (Fails err)) = Some s1 \<and> pc s1 = Looping \<and>
            queue s1 = queue s \<and> executed s1 = executed s @ [t] \<and>
            timers s1 = timers s @ [\<lparr>armed_at = now s, wait = delay (queue s), payload = t\<rparr>] \<and>
            (\<not> closing (queue s) \<and> tasks (queue s) \<noteq> [] \<longrightarrow>
               (\<exists>s2. step v s1 Loop_ev = Some s2 \<and> pc s2 = Executing (hd (tasks (queue s))))) \<and>
            (\<forall>dt. (run v s1 [Tick_ev dt, Timer_ev (length (timers s))] \<noteq> None) =
                    (delay (queue s) \<le> int dt)) \<and>
            (\<forall>dt s3. run v s1 [Tick_ev dt, Timer_ev (length (timers s))] = Some s3 \<longrightarrow>
                    queue s3 = Push t (queue s) \<and> timers s3 = timers s)) \<and>
         (\<exists>s1. step v s (Task_ev Succeeds) = Some s1 \<and> pc s1 = Looping \<and>
            queue s1 = queue s \<and> executed s1 = executed s @ [t] \<and> timers s1 = timers s)"
  using assms
  by (cases v)
     (auto simp: do_Task_def do_Loop_def do_Timer_def handle_result_def note_executed_def
        AfterFunc_def timer_due_def get_def get_waits_def get_after_wait_def Run_HEAD_dequeue_def
        nth_append split: list.splits)

text \<open>
  Task 2 fails while task 3 is buffered: the loop is back at its head with a timer for
  task 2, task 3 is dequeued next, and after 5 ticks the timer pushes task 2 again.
\<close>

theorem retry_on_failure_witness:
  "pc \<lparr>queue = \<lparr>delay = 5, retryBackoff = None :: unit option, tasks = [3 :: nat],
                  closing = False, closed = False, closeOnce = False, id_label = ''q''\<rparr>,
         pc = Executing 2, watcher = Waiting, stop = False, timers = [], now = 0,
         logs = [Debugf_started ''q''], executed = [1], closes = 0\<rparr> = Executing 2 \<and>
   step Incoming \<lparr>queue = \<lparr>delay = 5, retryBackoff = None :: unit option, tasks = [3 :: nat],
                  closing = False, closed = False, closeOnce = False, id_label = ''q''\<rparr>,
         pc = Executing 2, watcher = Waiting, stop = False, timers = [], now = 0,
         logs = [Debugf_started ''q''], executed = [1], closes = 0\<rparr> (Task_ev (Fails ''boom'')) = Some \<lparr>queue = \<lparr>delay = 5, retryBackoff = None :: unit option, tasks = [3 :: nat],
                  closing = False, closed = False, closeOnce = False, id_label = ''q''\<rparr>,
         pc = Looping, watcher = Waiting, stop = False,
         timers = [\<lparr>armed_at = 0, wait = 5, payload = 2\<rparr>], now = 0,
         logs = [Debugf_started ''q'', Infof_failed ''boom'' 5], executed = [1, 2],
         closes = 0\<rparr> \<and>
   map_option pc (step Incoming \<lparr>queue = \<lparr>delay = 5, retryBackoff = None :: unit option, tasks = [3 :: nat],
                  closing = False, closed = False, closeOnce = False, id_label = ''q''\<rparr>,
         pc = Looping, watcher = Waiting, stop = False,
         timers = [\<lparr>armed_at = 0, wait = 5, payload = 2\<rparr>], now = 0,
         logs = [Debugf_started ''q'', Infof_failed ''boom'' 5], executed = [1, 2],
         closes = 0\<rparr> Loop_ev) = Some (Executing 3) \<and>
   run Incoming \<lparr>queue = \<lparr>delay = 5, retryBackoff = None :: unit option, tasks = [3 :: nat],
                  closing = False, closed = False, closeOnce = False, id_label = ''q''\<rparr>,
         pc = Looping, watcher = Waiting, stop = False,
         timers = [\<lparr>armed_at = 0, wait = 5, payload = 2\<rparr>], now = 0,
         logs = [Debugf_started ''q'', Infof_failed ''boom'' 5], executed = [1, 2],
         closes = 0\<rparr> [Tick_ev 4, Timer_ev 0] = None \<and>
   map_option (\<lambda>s. (tasks (queue s), timers s)) (run Incoming \<lparr>queue = \<lparr>delay = 5, retryBackoff = None :: unit option, tasks = [3 :: nat],
                  closing = False, closed = False, closeOnce = False, id_label = ''q''\<rparr>,
         pc = Looping, watcher = Waiting, stop = False,
         timers = [\<lparr>armed_at = 0, wait = 5, payload = 2\<rparr>], now = 0,
         logs = [Debugf_started ''q'', Infof_failed ''boom'' 5], executed = [1, 2],
         closes = 0\<rparr> [Tick_ev 5, Timer_ev 0]) =
     Some ([3, 2], []) \<and>
   map_option timers (step Incoming \<lparr>queue = \<lparr>delay = 5, retryBackoff = None :: unit option, tasks = [3 :: nat],
                  closing = False, closed = False, closeOnce = False, id_label = ''q''\<rparr>,
         pc = Executing 2, watcher = Waiting, stop = False, timers = [], now = 0,
         logs = [Debugf_started ''q''], executed = [1], closes = 0\<rparr> (Task_ev Succeeds)) = Some []"
proof -
  let ?s = "\<lparr>queue = \<lparr>delay = 5, retryBackoff = None :: unit option, tasks = [3 :: nat],
                  closing = False, closed = False, closeOnce = False, id_label = ''q''\<rparr>,
         pc = Executing 2, watcher = Waiting, stop = False, timers = [], now = 0,
         logs = [Debugf_started ''q''], executed = [1], closes = 0\<rparr>"
  have h: "pc ?s = Executing 2" by simp
  have a: "step Incoming ?s (Task_ev (Fails ''boom'')) = Some \<lparr>queue = \<lparr>delay = 5, retryBackoff = None :: unit option, tasks = [3 :: nat],
                  closing = False, closed = False, closeOnce = False, id_label = ''q''\<rparr>,
         pc = Looping, watcher = Waiting, stop = False,
         timers = [\<lparr>armed_at = 0, wait = 5, payload = 2\<rparr>], now = 0,
         logs = [Debugf_started ''q'', Infof_failed ''boom'' 5], executed = [1, 2],
         closes = 0\<rparr>"
    by (simp add: do_Task_def handle_result_def note_executed_def AfterFunc_def)
  have b: "map_option pc (step Incoming \<lparr>queue = \<lparr>delay = 5, retryBackoff = None :: unit option, tasks = [3 :: nat],
                  closing = False, closed = False, closeOnce = False, id_label = ''q''\<rparr>,
         pc = Looping, watcher = Waiting, stop = False,
         timers = [\<lparr>armed_at = 0, wait = 5, payload = 2\<rparr>], now = 0,
         logs = [Debugf_started ''q'', Infof_failed ''boom'' 5], executed = [1, 2],
         closes = 0\<rparr> Loop_ev) = Some (Executing 3)"
    by (simp add: do_Loop_def get_def get_waits_def get_after_wait_def)
  have c: "run Incoming \<lparr>queue = \<lparr>delay = 5, retryBackoff = None :: unit option, tasks = [3 :: nat],
                  closing = False, closed = False, closeOnce = False, id_label = ''q''\<rparr>,
         pc = Looping, watcher = Waiting, stop = False,
         timers = [\<lparr>armed_at = 0, wait = 5, payload = 2\<rparr>], now = 0,
         logs = [Debugf_started ''q'', Infof_failed ''boom'' 5], executed = [1, 2],
         closes = 0\<rparr> [Tick_ev 4, Timer_ev 0] = None"
    by (simp add: do_Timer_def timer_due_def)
  have d: "map_option (\<lambda>s. (tasks (queue s), timers s))
             (run Incoming \<lparr>queue = \<lparr>delay = 5, retryBackoff = None :: unit option, tasks = [3 :: nat],
                  closing = False, closed = False, closeOnce = False, id_label = ''q''\<rparr>,
         pc = Looping, watcher = Waiting, stop = False,
         timers = [\<lparr>armed_at = 0, wait = 5, payload = 2\<rparr>], now = 0,
         logs = [Debugf_started ''q'', Infof_failed ''boom'' 5], executed = [1, 2],
         closes = 0\<rparr> [Tick_ev 5, Timer_ev 0]) = Some ([3, 2], [])"
    by (simp add: do_Timer_def timer_due_def Push_def)
  from retry_on_failure [OF h, where v = Incoming]
  obtain s1 where "step Incoming ?s (Task_ev Succeeds) = Some s1" and "timers s1 = timers ?s"
    by blast
  then have e: "map_option timers (step Incoming ?s (Task_ev Succeeds)) = Some []"
    by simp
  show ?thesis by (intro conjI h a b c d e)
qed

subsection \<open>C5: one close notification\<close>

text \<open>
  C5. At every moment of a queue's life the channel has been closed at most once; it is
  closed exactly when \<open>Run\<close> has returned or panicked, so never while the loop still
  dequeues and always once \<open>Run\<close> is over; \<open>Run\<close> never panics by closing the channel
  twice. Running the deferred function again, any number of times, returns normally
  with the channel closed once, and changes nothing when the channel is closed already.
\<close>

theorem closed_fires_once:
  assumes "run v (init (NewQueueWithID d n)) evs = Some s"
  shows "closes s \<le> 1 \<and> (Closed (queue s) \<longleftrightarrow> closes s = 1) \<and>
         (Closed (queue s) \<longleftrightarrow> finished (pc s)) \<and>
         pc s \<noteq> Panicked CloseOfClosedChannel \<and>
         (\<exists>s'. teardowns (Suc k) s = Returns s' \<and> closes s' = 1 \<and> Closed (queue s') \<and>
               teardowns j s' = Returns s' \<and> (Closed (queue s) \<longrightarrow> s' = s))"
proof -
  have inv: "close_inv s"
    using init_close_inv assms by (rule run_close_inv)
  show ?thesis
  proof (cases "closed (queue s)")
    case True
    with inv have "closeOnce (queue s)" by (simp add: close_inv_def)
    with True have "\<And>i. teardowns i s = Returns s" by (simp add: teardowns_closed)
    with True inv show ?thesis by (simp add: close_inv_def Closed_def)
  next
    case False
    with inv have o: "\<not> closeOnce (queue s)" by (simp add: close_inv_def)
    note td = teardowns_open[OF False o]
    from False inv show ?thesis
      by (simp add: close_inv_def Closed_def td teardowns_closed del: teardowns.simps)
  qed
qed

text \<open>After a run that ends by the stop signal, two more teardowns change nothing.\<close>

theorem closed_fires_once_witness:
  "run HEAD (init (NewQueueWithID 5 ''q''))
     [Push_ev 1, Push_ev 2, Run_ev, Stop_ev, Watcher_ev,
      Loop_ev, Task_ev Succeeds, Loop_ev, Task_ev Succeeds, Loop_ev, Return_ev] =
     Some \<lparr>queue = \<lparr>delay = 5, retryBackoff = None :: unit option, tasks = [] :: nat list,
                  closing = True, closed = True, closeOnce = True, id_label = ''q''\<rparr>,
         pc = Stopped, watcher = Finished, stop = True, timers = [], now = 0,
         logs = [Debugf_started ''q'', Debugf_closed ''q''], executed = [1, 2],
         closes = 1\<rparr> \<and>
   closes \<lparr>queue = \<lparr>delay = 5, retryBackoff = None :: unit option, tasks = [] :: nat list,
                  closing = True, closed = True, closeOnce = True, id_label = ''q''\<rparr>,
         pc = Stopped, watcher = Finished, stop = True, timers = [], now = 0,
         logs = [Debugf_started ''q'', Debugf_closed ''q''], executed = [1, 2],
         closes = 1\<rparr> = 1 \<and> Closed (queue \<lparr>queue = \<lparr>delay = 5, retryBackoff = None :: unit option, tasks = [] :: nat list,
                  closing = True, closed = True, closeOnce = True, id_label = ''q''\<rparr>,
         pc = Stopped, watcher = Finished, stop = True, timers = [], now = 0,
         logs = [Debugf_started ''q'', Debugf_closed ''q''], executed = [1, 2],
         closes = 1\<rparr>) \<and> finished (pc \<lparr>queue = \<lparr>delay = 5, retryBackoff = None :: unit option, tasks = [] :: nat list,
                  closing = True, closed = True, closeOnce = True, id_label = ''q''\<rparr>,
         pc = Stopped, watcher = Finished, stop = True, timers = [], now = 0,
         logs = [Debugf_started ''q'', Debugf_closed ''q''], executed = [1, 2],
         closes = 1\<rparr>) \<and>
   teardowns 2 \<lparr>queue = \<lparr>delay = 5, retryBackoff = None :: unit option, tasks = [] :: nat list,
                  closing = True, closed = True, closeOnce = True, id_label = ''q''\<rparr>,
         pc = Stopped, watcher = Finished, stop = True, timers = [], now = 0,
         logs = [Debugf_started ''q'', Debugf_closed ''q''], executed = [1, 2],
         closes = 1\<rparr> = Returns \<lparr>queue = \<lparr>delay = 5, retryBackoff = None :: unit option, tasks = [] :: nat list,
                  closing = True, closed = True, closeOnce = True, id_label = ''q''\<rparr>,
         pc = Stopped, watcher = Finished, stop = True, timers = [], now = 0,
         logs = [Debugf_started ''q'', Debugf_closed ''q''], executed = [1, 2],
         closes = 1\<rparr>"
proof -
  let ?evs = "[Push_ev 1, Push_ev 2, Run_ev, Stop_ev, Watcher_ev,
      Loop_ev, Task_ev Succeeds, Loop_ev, Task_ev Succeeds, Loop_ev, Return_ev] :: nat event list"
  let ?s = "\<lparr>queue = \<lparr>delay = 5, retryBackoff = None :: unit option, tasks = [] :: nat list,
                  closing = True, closed = True, closeOnce = True, id_label = ''q''\<rparr>,
         pc = Stopped, watcher = Finished, stop = True, timers = [], now = 0,
         logs = [Debugf_started ''q'', Debugf_closed ''q''], executed = [1, 2],
         closes = 1\<rparr>"
  have r: "run HEAD (init (NewQueueWithID 5 ''q'')) ?evs = Some ?s"
    by (simp add: step_defs init_def NewQueueWithID_def)
  have c: "Closed (queue ?s)" by (simp add: Closed_def)
  from closed_fires_once [OF r, where k = 1 and j = 2] c
  have "closes ?s = 1" and "finished (pc ?s)" and "teardowns 2 ?s = Returns ?s"
    by auto
  with r c show ?thesis by (intro conjI)
qed

subsection \<open>C6: the closing flag\<close>

text \<open>
  C6. A new queue is not closing. A transition changes \<open>closing\<close> only if it is the
  watcher's, taken after the stop signal, and then it sets it. Once set, \<open>closing\<close> stays
  set whatever happens. In the life of a queue the watcher's assignment runs at most
  once, and \<open>closing\<close> is set exactly when it has run.
\<close>

theorem closing_monotonic:
  "\<not> closing (queue (init (NewQueueWithID d n) :: ('t, 'b) system)) \<and>
   (step v s e = Some s' \<longrightarrow> closing (queue s') \<noteq> closing (queue s) \<longrightarrow>
      e = Watcher_ev \<and> stop s \<and> closing (queue s')) \<and>
   (run v s evs = Some s' \<longrightarrow> closing (queue s) \<longrightarrow> closing (queue s')) \<and>
   (run v (init (NewQueueWithID d n)) evs = Some (s' :: ('t, 'b) system) \<longrightarrow>
      length (filter is_Watcher evs) \<le> 1 \<and>
      closing (queue s') = (0 < length (filter is_Watcher evs)))"
proof (intro conjI impI)
  show "\<not> closing (queue (init (NewQueueWithID d n) :: ('t, 'b) system))"
    by (simp add: init_def NewQueueWithID_def)
  show "e = Watcher_ev" "stop s" "closing (queue s')"
    if "step v s e = Some s'" "closing (queue s') \<noteq> closing (queue s)"
    using step_closing_change[OF that] step_closing_mono[OF that(1)] that(2) by auto
  show "closing (queue s')" if "run v s evs = Some s'" "closing (queue s)"
    using that by (rule run_closing_mono)
next
  assume r: "run v (init (NewQueueWithID d n)) evs = Some s'"
  have w: "watcher_inv (init (NewQueueWithID d n) :: ('t, 'b) system)"
    by (simp add: watcher_inv_def init_def)
  from run_watcher_count[OF w r]
  show "length (filter is_Watcher evs) \<le> 1"
    and "closing (queue s') = (0 < length (filter is_Watcher evs))"
    by (simp_all add: init_def NewQueueWithID_def)
qed

text \<open>
  The watcher sets the flag after the stop signal, and a later \<open>Push\<close> leaves it set; a
  second run of the watcher is not possible.
\<close>

theorem closing_monotonic_witness:
  "step Incoming \<lparr>queue = \<lparr>delay = 5, retryBackoff = None :: unit option, tasks = [] :: nat list,
                  closing = False, closed = False, closeOnce = False, id_label = ''q''\<rparr>,
         pc = Looping, watcher = Waiting, stop = True, timers = [], now = 0,
         logs = [Debugf_started ''q''], executed = [], closes = 0\<rparr> Watcher_ev = Some \<lparr>queue = \<lparr>delay = 5, retryBackoff = None :: unit option, tasks = [] :: nat list,
                  closing = True, closed = False, closeOnce = False, id_label = ''q''\<rparr>,
         pc = Looping, watcher = Finished, stop = True, timers = [], now = 0,
         logs = [Debugf_started ''q''], executed = [], closes = 0\<rparr> \<and>
   run Incoming (init (NewQueueWithID 5 ''q'')) [Run_ev, Stop_ev, Watcher_ev] = Some \<lparr>queue = \<lparr>delay = 5, retryBackoff = None :: unit option, tasks = [] :: nat list,
                  closing = True, closed = False, closeOnce = False, id_label = ''q''\<rparr>,
         pc = Looping, watcher = Finished, stop = True, timers = [], now = 0,
         logs = [Debugf_started ''q''], executed = [], closes = 0\<rparr> \<and>
   run Incoming \<lparr>queue = \<lparr>delay = 5, retryBackoff = None :: unit option, tasks = [] :: nat list,
                  closing = True, closed = False, closeOnce = False, id_label = ''q''\<rparr>,
         pc = Looping, watcher = Finished, stop = True, timers = [], now = 0,
         logs = [Debugf_started ''q''], executed = [], closes = 0\<rparr> [Push_ev 4, Tick_ev 1] = Some (\<lparr>queue = \<lparr>delay = 5, retryBackoff = None :: unit option, tasks = [] :: nat list,
                  closing = True, closed = False, closeOnce = False, id_label = ''q''\<rparr>,
         pc = Looping, watcher = Finished, stop = True, timers = [], now = 0,
         logs = [Debugf_started ''q''], executed = [], closes = 0\<rparr>\<lparr>now := 1\<rparr>) \<and>
   run Incoming (init (NewQueueWithID 5 ''q'' :: (nat, unit) queueImpl))
     [Run_ev, Stop_ev, Watcher_ev, Watcher_ev] = None \<and>
   closing (queue \<lparr>queue = \<lparr>delay = 5, retryBackoff = None :: unit option, tasks = [] :: nat list,
                  closing = True, closed = False, closeOnce = False, id_label = ''q''\<rparr>,
         pc = Looping, watcher = Finished, stop = True, timers = [], now = 0,
         logs = [Debugf_started ''q''], executed = [], closes = 0\<rparr>) \<and>
   closing (queue (\<lparr>queue = \<lparr>delay = 5, retryBackoff = None :: unit option, tasks = [] :: nat list,
                  closing = True, closed = False, closeOnce = False, id_label = ''q''\<rparr>,
         pc = Looping, watcher = Finished, stop = True, timers = [], now = 0,
         logs = [Debugf_started ''q''], executed = [], closes = 0\<rparr>\<lparr>now := 1\<rparr>))"
proof -
  let ?w = "\<lparr>queue = \<lparr>delay = 5, retryBackoff = None :: unit option, tasks = [] :: nat list,
                  closing = False, closed = False, closeOnce = False, id_label = ''q''\<rparr>,
         pc = Looping, watcher = Waiting, stop = True, timers = [], now = 0,
         logs = [Debugf_started ''q''], executed = [], closes = 0\<rparr>"
  let ?c = "\<lparr>queue = \<lparr>delay = 5, retryBackoff = None :: unit option, tasks = [] :: nat list,
                  closing = True, closed = False, closeOnce = False, id_label = ''q''\<rparr>,
         pc = Looping, watcher = Finished, stop = True, timers = [], now = 0,
         logs = [Debugf_started ''q''], executed = [], closes = 0\<rparr>"
  have a: "step Incoming ?w Watcher_ev = Some ?c"
    by (simp add: do_Watcher_def Run_watcher_def)
  have b: "run Incoming (init (NewQueueWithID 5 ''q'')) [Run_ev, Stop_ev, Watcher_ev] = Some ?c"
    by (simp add: do_Run_def do_Watcher_def Run_watcher_def init_def NewQueueWithID_def)
  have c: "run Incoming ?c [Push_ev 4, Tick_ev 1] = Some (?c\<lparr>now := 1\<rparr>)"
    by (simp add: Push_def)
  have d: "run Incoming (init (NewQueueWithID 5 ''q'' :: (nat, unit) queueImpl))
             [Run_ev, Stop_ev, Watcher_ev, Watcher_ev] = None"
    by (simp add: do_Run_def do_Watcher_def Run_watcher_def init_def NewQueueWithID_def)
  note th = closing_monotonic [where v = Incoming and d = 5 and n = "''q''"]
  from th [where s = ?w and e = Watcher_ev and s' = ?c and evs = "[Run_ev, Stop_ev, Watcher_ev]"] b
  have e: "closing (queue ?c)" by simp
  from th [where s = ?c and e = Watcher_ev and s' = "?c\<lparr>now := 1\<rparr>" and evs = "[Push_ev 4, Tick_ev 1]"] c e
  have f: "closing (queue (?c\<lparr>now := 1\<rparr>))" by blast
  show ?thesis by (intro conjI a b c d e f)
qed

subsection \<open>C7: the retry delay is fixed\<close>

text \<open>
  C7. In the life of a queue built with delay \<open>d\<close>, the delay stays \<open>d\<close>, every armed timer
  waits \<open>d\<close>, and every logged failure reports \<open>d\<close>. Whatever is put in the backoff slot,
  the queue does what it does with the slot empty, the slot apart.
\<close>

theorem fixed_retry_delay:
  assumes "run v (init ((NewQueueWithID d n)\<lparr>retryBackoff := b\<rparr>)) evs = Some (s :: ('t, 'b) system)"
  shows "delay (queue s) = d \<and> (\<forall>tm \<in> set (timers s). wait tm = d) \<and>
         (\<forall>err dl. Infof_failed err dl \<in> set (logs s) \<longrightarrow> dl = d) \<and>
         run v (init (NewQueueWithID d n)) evs = Some (set_backoff None s)"
proof -
  let ?s0 = "init ((NewQueueWithID d n)\<lparr>retryBackoff := b\<rparr>) :: ('t, 'b) system"
  have "delay_inv d ?s0"
    by (simp add: delay_inv_def init_def NewQueueWithID_def)
  then have "delay_inv d s" using assms by (rule run_delay_inv)
  moreover have "set_backoff None ?s0 = init (NewQueueWithID d n)"
    by (simp add: set_backoff_def init_def NewQueueWithID_def)
  then have "run v (init (NewQueueWithID d n)) evs = Some (set_backoff None s)"
    using run_set_backoff[of v None ?s0 evs] assms by simp
  ultimately show ?thesis by (simp add: delay_inv_def)
qed

text \<open>A queue with delay 5 and a backoff in the slot: the failing task is rescheduled after 5.\<close>

theorem fixed_retry_delay_witness:
  "run HEAD (init ((NewQueueWithID 5 ''q'')\<lparr>retryBackoff := Some 7\<rparr>))
     [Push_ev 1, Run_ev, Loop_ev, Task_ev (Fails ''boom'')] = Some \<lparr>queue = \<lparr>delay = 5, retryBackoff = Some (7 :: nat), tasks = [] :: nat list,
                  closing = False, closed = False, closeOnce = False, id_label = ''q''\<rparr>,
         pc = Looping, watcher = Waiting, stop = False,
         timers = [\<lparr>armed_at = 0, wait = 5, payload = 1\<rparr>], now = 0,
         logs = [Debugf_started ''q'', Infof_failed ''boom'' 5], executed = [1],
         closes = 0\<rparr> \<and>
   map wait (timers \<lparr>queue = \<lparr>delay = 5, retryBackoff = Some (7 :: nat), tasks = [] :: nat list,
                  closing = False, closed = False, closeOnce = False, id_label = ''q''\<rparr>,
         pc = Looping, watcher = Waiting, stop = False,
         timers = [\<lparr>armed_at = 0, wait = 5, payload = 1\<rparr>], now = 0,
         logs = [Debugf_started ''q'', Infof_failed ''boom'' 5], executed = [1],
         closes = 0\<rparr>) = [5] \<and>
   run HEAD (init (NewQueueWithID 5 ''q''))
     [Push_ev 1, Run_ev, Loop_ev, Task_ev (Fails ''boom'')] = Some (set_backoff None \<lparr>queue = \<lparr>delay = 5, retryBackoff = Some (7 :: nat), tasks = [] :: nat list,
                  closing = False, closed = False, closeOnce = False, id_label = ''q''\<rparr>,
         pc = Looping, watcher = Waiting, stop = False,
         timers = [\<lparr>armed_at = 0, wait = 5, payload = 1\<rparr>], now = 0,
         logs = [Debugf_started ''q'', Infof_failed ''boom'' 5], executed = [1],
         closes = 0\<rparr>)"
proof -
  let ?evs = "[Push_ev 1, Run_ev, Loop_ev, Task_ev (Fails ''boom'')] :: nat event list"
  let ?s = "\<lparr>queue = \<lparr>delay = 5, retryBackoff = Some (7 :: nat), tasks = [] :: nat list,
                  closing = False, closed = False, closeOnce = False, id_label = ''q''\<rparr>,
         pc = Looping, watcher = Waiting, stop = False,
         timers = [\<lparr>armed_at = 0, wait = 5, payload = 1\<rparr>], now = 0,
         logs = [Debugf_started ''q'', Infof_failed ''boom'' 5], executed = [1],
         closes = 0\<rparr>"
  have r: "run HEAD (init ((NewQueueWithID 5 ''q'')\<lparr>retryBackoff := Some 7\<rparr>)) ?evs = Some ?s"
    by (simp add: step_defs init_def NewQueueWithID_def)
  have w: "map wait (timers ?s) = [5]" by simp
  from fixed_retry_delay [OF r]
  have "run HEAD (init (NewQueueWithID 5 ''q'')) ?evs = Some (set_backoff None ?s)" by blast
  with r w show ?thesis by (intro conjI)
qed

subsection \<open>C8: the identifier\<close>

text \<open>
  C8. Two queues built with the same delay and different identifiers do the same under
  every sequence of transitions: the same transitions are enabled, and the states reached
  are equal once the identifier is erased from the queue and from the log lines.
\<close>

theorem id_noninterference:
  "map_option forget_id (run v (init (NewQueueWithID d n1)) evs) =
   map_option forget_id (run v (init (NewQueueWithID d n2)) evs)"
proof -
  have "map_option forget_id (run v (init (NewQueueWithID d n1)) evs) =
        run v (forget_id (init (NewQueueWithID d n1))) evs"
    by (simp add: run_forget_id)
  also have "\<dots> = run v (forget_id (init (NewQueueWithID d n2))) evs"
    by (simp only: forget_id_init[of d n1 n2])
  finally show ?thesis by (simp add: run_forget_id)
qed

theorem id_noninterference_witness:
  "map_option forget_id
     (run Incoming (init (NewQueueWithID 5 ''alpha'' :: (nat, unit) queueImpl))
        [Push_ev 1, Run_ev, Loop_ev, Task_ev (Fails ''boom''), Stop_ev, Watcher_ev, Loop_ev, Return_ev]) =
   map_option forget_id
     (run Incoming (init (NewQueueWithID 5 ''beta''))
        [Push_ev 1, Run_ev, Loop_ev, Task_ev (Fails ''boom''), Stop_ev, Watcher_ev, Loop_ev, Return_ev])"
  by (rule id_noninterference)

end
